theory Spec2Isabelle
  imports Main
begin

section \<open>The exam-security hook \<open>useFullScreenExamSecurity\<close>\<close>

text \<open>
  The repository holds three versions of the React hook \<open>useFullScreenExamSecurity\<close>:
  \<^item> \<open>Prevention\<close>: \<^verbatim>\<open>src/unnamed/part_000\<close>, first hook of the file (three parameters,
    \<open>startExam\<close> requests fullscreen itself);
  \<^item> \<open>DevTools\<close>: \<^verbatim>\<open>src/unnamed/part_000\<close>, second hook of the file (security switches,
    developer-tools heuristic, \<open>startExam\<close> only arms the counter);
  \<^item> \<open>Toggle\<close>: \<^verbatim>\<open>src/unnamed/part_001\<close> (security switches, \<open>startExam\<close> requests
    fullscreen when security is enabled).

  The hook is modelled by explicit state passing. The state holds what the hook keeps
  between renders (\<open>useState\<close>, \<open>useRef\<close>), what the browser keeps for it (pending
  timers, attached listeners, the fullscreen element) and a trace of every effect on the
  outside world, in the order the code performs it.

  The browser runs one handler at a time, to its end. What the model takes from React and
  the browser:
  \<^item> \<open>setViolations\<close> queues its argument; a render makes it the value of \<open>violations\<close>,
    creates the callbacks again over that value and runs the effect. Renders are events
    of their own, so a handler that runs before the render sees the old value.
  \<^item> A timer fires when the clock reaches its deadline.
  \<^item> A fullscreen request is granted or rejected by the browser; the code after the
    \<open>await\<close> runs in the same step as the request.
  \<^item> The host's callbacks return normally and do not call back into the hook; a call is
    recorded in the trace.
\<close>

datatype hook_variant = Prevention | DevTools | Toggle

subsection \<open>Effects and configuration\<close>

text \<open>Calls that leave the hook: the two host callbacks and the browser primitives.\<close>

datatype effect =
    Warning string
  | FinishExam
  | Alert string
  | PreventDefault
  | RequestFullscreen
  | ConsoleError string
  | ConsoleWarn string

text \<open>
  The arguments of the hook that the model keeps fixed. A callback is called through
  \<open>?.\<close>, so all that matters of it is whether it is defined: \<open>onFinishExam\<close> and
  \<open>onWarning\<close> are \<open>True\<close> when the host passed a function.
\<close>

record config =
  variant :: hook_variant
  maxViolations :: int
  onFinishExam :: bool
  onWarning :: bool

record hook_state =
  violations :: int               \<comment> \<open>\<open>useState(-1)\<close>: the value of the last render\<close>
  pending :: "int option"         \<comment> \<open>argument of a \<open>setViolations\<close> not rendered yet\<close>
  isHandlingViolation :: bool     \<comment> \<open>\<open>useRef(false)\<close>: the reentrancy latch\<close>
  timers :: "nat list"            \<comment> \<open>deadlines (ms) of the \<open>setTimeout\<close> calls not fired yet\<close>
  now :: nat                      \<comment> \<open>the clock, in ms\<close>
  subscribed :: bool              \<comment> \<open>the effect's listeners (and interval) are attached\<close>
  isSecurityEnabled :: bool       \<comment> \<open>argument of the last render\<close>
  isFinalSubmission :: bool       \<comment> \<open>argument of the last render\<close>
  fullscreen :: bool              \<comment> \<open>\<open>document.fullscreenElement\<close> is not null\<close>
  trace :: "effect list"

definition emit :: "effect \<Rightarrow> hook_state \<Rightarrow> hook_state" where
  "emit e st = st\<lparr>trace := trace st @ [e]\<rparr>"

text \<open>What the host has seen: the warning messages in order, and the number of submissions.\<close>

fun warnings :: "effect list \<Rightarrow> string list" where
  "warnings [] = []"
| "warnings (Warning m # es) = m # warnings es"
| "warnings (e # es) = warnings es"

fun finishes :: "effect list \<Rightarrow> nat" where
  "finishes [] = 0"
| "finishes (FinishExam # es) = Suc (finishes es)"
| "finishes (e # es) = finishes es"

fun alerts :: "effect list \<Rightarrow> string list" where
  "alerts [] = []"
| "alerts (Alert m # es) = m # alerts es"
| "alerts (e # es) = alerts es"

fun prevented :: "effect list \<Rightarrow> nat" where
  "prevented [] = 0"
| "prevented (PreventDefault # es) = Suc (prevented es)"
| "prevented (e # es) = prevented es"

fun requests :: "effect list \<Rightarrow> nat" where
  "requests [] = 0"
| "requests (RequestFullscreen # es) = Suc (requests es)"
| "requests (e # es) = requests es"

subsection \<open>Template literals\<close>

text \<open>\<open>${newCount}\<close> converts a number to its decimal notation.\<close>

fun show_nat :: "nat \<Rightarrow> string" where
  "show_nat n =
     (if n < 10 then [''0123456789'' ! n]
      else show_nat (n div 10) @ [''0123456789'' ! (n mod 10)])"

declare show_nat.simps [simp del]

definition show_int :: "int \<Rightarrow> string" where
  "show_int i = (if i < 0 then ''-'' @ show_nat (nat (- i)) else show_nat (nat i))"

text \<open>The two messages of \<open>handleViolation\<close> in \<open>Prevention\<close> and \<open>Toggle\<close>; the reason is
  not used there.\<close>

definition finalWarningPlain :: "int \<Rightarrow> string" where
  "finalWarningPlain newCount =
     ''FINAL WARNING: You have attempted to leave the exam '' @ show_int newCount @
     '' times. One more violation will result in automatic submission.''"

definition warningPlain :: "int \<Rightarrow> int \<Rightarrow> string" where
  "warningPlain newCount maxV =
     ''Warning: You attempted to leave the exam window. This is violation '' @
     show_int newCount @ '' of '' @ show_int maxV @ ''. Please remain in the exam.''"

text \<open>The two messages of \<open>handleViolation\<close> in \<open>DevTools\<close>.\<close>

definition finalWarningReason :: "string \<Rightarrow> string" where
  "finalWarningReason reason =
     ''FINAL WARNING: You have attempted to leave the exam ('' @ reason @
     ''). One more violation will result in automatic submission.''"

definition warningReason :: "string \<Rightarrow> int \<Rightarrow> int \<Rightarrow> string" where
  "warningReason reason newCount maxV =
     ''Warning: You attempted to leave the exam window ('' @ reason @
     ''). This is violation '' @ show_int newCount @ '' of '' @ show_int maxV @ ''.''"

definition finalWarning :: "hook_variant \<Rightarrow> string \<Rightarrow> int \<Rightarrow> string" where
  "finalWarning v reason newCount =
     (case v of DevTools \<Rightarrow> finalWarningReason reason | _ \<Rightarrow> finalWarningPlain newCount)"

definition warning :: "hook_variant \<Rightarrow> string \<Rightarrow> int \<Rightarrow> int \<Rightarrow> string" where
  "warning v reason newCount maxV =
     (case v of DevTools \<Rightarrow> warningReason reason newCount maxV
      | _ \<Rightarrow> warningPlain newCount maxV)"

text \<open>How a reader tells the two kinds of message apart: by their first words.\<close>

definition isFinalWarning :: "string \<Rightarrow> bool" where
  "isFinalWarning m = (take 14 m = ''FINAL WARNING:'')"

definition isWarning :: "string \<Rightarrow> bool" where
  "isWarning m = (take 8 m = ''Warning:'')"

subsection \<open>The violation handler\<close>

text \<open>
  \<open>handleViolation\<close> (part_000 lines 21-44 and 160-182, part_001 lines 22-45). The count it
  increments is the \<open>violations\<close> of the render that created the callback; \<open>setViolations\<close>
  only queues the new value. The latch is a ref and changes at once. \<open>setTimeout\<close> adds a
  timer that is due 500 ms later.
\<close>

definition message :: "config \<Rightarrow> string \<Rightarrow> int \<Rightarrow> string" where
  "message cfg reason newCount =
     (if newCount = maxViolations cfg
      then finalWarning (variant cfg) reason newCount
      else warning (variant cfg) reason newCount (maxViolations cfg))"

definition handleViolation :: "config \<Rightarrow> string \<Rightarrow> hook_state \<Rightarrow> hook_state" where
  "handleViolation cfg reason st =
     (if isHandlingViolation st then st
      else
        let newCount = violations st + 1;
            st1 = st\<lparr>isHandlingViolation := True, pending := Some newCount\<rparr>;
            st2 =
              (if newCount \<le> maxViolations cfg then
                 (if onWarning cfg then emit (Warning (message cfg reason newCount)) st1
                  else st1)
               else
                 (if onFinishExam cfg then emit FinishExam st1 else st1))
        in st2\<lparr>timers := timers st2 @ [now st2 + 500]\<rparr>)"

text \<open>Time passes: every timer that is due fires and releases the latch.\<close>

definition elapse :: "nat \<Rightarrow> hook_state \<Rightarrow> hook_state" where
  "elapse d st =
     (let t = now st + d
      in st\<lparr>now := t,
            timers := filter (\<lambda>x. \<not> x \<le> t) (timers st),
            isHandlingViolation :=
              (if filter (\<lambda>x. x \<le> t) (timers st) = [] then isHandlingViolation st
               else False)\<rparr>)"

subsection \<open>Rendering and the effect\<close>

text \<open>
  The guard that opens the effect (part_000 lines 47 and 185, part_001 line 49): the
  listeners are attached when it does not return early. \<open>Prevention\<close> has no security
  switches.
\<close>

definition eligible :: "hook_variant \<Rightarrow> bool \<Rightarrow> int \<Rightarrow> bool \<Rightarrow> bool" where
  "eligible v sec viol fin =
     (case v of
        Prevention \<Rightarrow> \<not> (viol = - 1)
      | _ \<Rightarrow> \<not> (\<not> sec \<or> viol = - 1 \<or> fin))"

text \<open>
  A render with the arguments \<open>isSecurityEnabled\<close> and \<open>isFinalSubmission\<close>: the queued
  state update becomes the value of \<open>violations\<close>, the callbacks are created again over
  it, and the effect runs: its cleanup detaches every listener and its body attaches
  them again when the guard allows.
\<close>

definition render :: "config \<Rightarrow> bool \<Rightarrow> bool \<Rightarrow> hook_state \<Rightarrow> hook_state" where
  "render cfg sec fin st =
     (let viol = (case pending st of Some x \<Rightarrow> x | None \<Rightarrow> violations st)
      in st\<lparr>violations := viol,
            pending := None,
            isSecurityEnabled := sec,
            isFinalSubmission := fin,
            subscribed := eligible (variant cfg) sec viol fin\<rparr>)"

text \<open>The first render and the state before it.\<close>

definition unmounted :: hook_state where
  "unmounted =
     \<lparr>violations = - 1, pending = None, isHandlingViolation = False, timers = [],
      now = 0, subscribed = False, isSecurityEnabled = False, isFinalSubmission = False,
      fullscreen = False, trace = []\<rparr>"

definition mount :: "config \<Rightarrow> bool \<Rightarrow> bool \<Rightarrow> hook_state" where
  "mount cfg sec fin = render cfg sec fin unmounted"

subsection \<open>Browser signals and their listeners\<close>

record key_event =
  ctrlKey :: bool
  altKey :: bool
  shiftKey :: bool
  key :: string

text \<open>
  A signal is an event of the browser with what the listener reads from it:
  \<open>VisibilityChange h\<close> carries \<open>document.hidden\<close>, \<open>FullscreenChange b\<close> says whether a
  fullscreen element exists after the change, \<open>DevToolsCheck ow iw oh ih\<close> is a tick of the
  one-second interval with the outer and inner width and height of the window.
\<close>

datatype signal =
    VisibilityChange bool
  | Blur
  | FullscreenChange bool
  | KeyDown key_event
  | ContextMenu
  | DragStart
  | SelectStart
  | Copy
  | Paste
  | Cut
  | DevToolsCheck int int int int

definition preventDefault :: "hook_state \<Rightarrow> hook_state" where
  "preventDefault st = emit PreventDefault st"

text \<open>\<open>toLowerCase\<close> on the letters that the key lists hold.\<close>

definition lowerChar :: "char \<Rightarrow> char" where
  "lowerChar c =
     (let n = (of_char c :: nat)
      in if 65 \<le> n \<and> n \<le> 90 then char_of (n + 32) else c)"

definition toLowerCase :: "string \<Rightarrow> string" where
  "toLowerCase s = map lowerChar s"

definition handleVisibilityChange :: "config \<Rightarrow> bool \<Rightarrow> hook_state \<Rightarrow> hook_state" where
  "handleVisibilityChange cfg hidden st =
     (if hidden then
        handleViolation cfg
          (case variant cfg of DevTools \<Rightarrow> ''switched tabs'' | _ \<Rightarrow> ''Switched tabs'') st
      else st)"

definition handleBlur :: "config \<Rightarrow> hook_state \<Rightarrow> hook_state" where
  "handleBlur cfg st =
     (if fullscreen st then
        handleViolation cfg
          (case variant cfg of DevTools \<Rightarrow> ''switched window'' | _ \<Rightarrow> ''Left exam window'') st
      else st)"

definition handleFullScreenChange :: "config \<Rightarrow> hook_state \<Rightarrow> hook_state" where
  "handleFullScreenChange cfg st =
     (if \<not> fullscreen st then
        handleViolation cfg
          (case variant cfg of DevTools \<Rightarrow> ''exited fullscreen'' | _ \<Rightarrow> ''Exited fullscreen'')
          st
      else st)"

text \<open>\<open>handleKeyDown\<close>: part_000 lines 67-83 and 206-227, part_001 lines 66-71.\<close>

definition handleKeyDown :: "config \<Rightarrow> key_event \<Rightarrow> hook_state \<Rightarrow> hook_state" where
  "handleKeyDown cfg e st =
     (case variant cfg of
        Prevention \<Rightarrow>
          (let st1 =
                 (if ctrlKey e \<and> (key e = ''t'' \<or> key e = ''n'' \<or> key e = ''w'')
                  then handleViolation cfg ''Tried to open or close a tab/window''
                         (preventDefault st)
                  else st);
               st2 =
                 (if ctrlKey e \<and> key e = ''Tab''
                  then handleViolation cfg ''Tried to switch tabs'' (preventDefault st1)
                  else st1)
           in if altKey e \<and> key e = ''Tab''
              then handleViolation cfg ''Tried to switch applications'' (preventDefault st2)
              else st2)
      | DevTools \<Rightarrow>
          (let st1 =
                 (if ctrlKey e \<and>
                     toLowerCase (key e) \<in> set [''t'', ''n'', ''w'', ''p'', ''s'', ''o'', ''u'']
                  then handleViolation cfg ''used a restricted shortcut'' (preventDefault st)
                  else st);
               st2 =
                 (if (ctrlKey e \<or> altKey e) \<and> key e = ''Tab''
                  then handleViolation cfg ''tried to switch tabs/windows''
                         (preventDefault st1)
                  else st1)
           in if key e = ''F12'' \<or>
                 (ctrlKey e \<and> shiftKey e \<and> toLowerCase (key e) \<in> set [''i'', ''j'', ''c''])
              then handleViolation cfg ''tried to open developer tools'' (preventDefault st2)
              else st2)
      | Toggle \<Rightarrow>
          (if (ctrlKey e \<and>
                 (key e = ''t'' \<or> key e = ''n'' \<or> key e = ''w'' \<or> key e = ''Tab'')) \<or>
              (altKey e \<and> key e = ''Tab'')
           then handleViolation cfg ''Tried a restricted keyboard shortcut''
                  (preventDefault st)
           else st))"

text \<open>
  The listeners that only suppress. \<open>Prevention\<close> and \<open>Toggle\<close> register \<open>handleContextMenu\<close>
  and \<open>preventAction\<close>; \<open>DevTools\<close> registers \<open>preventDefault\<close> for the context menu, drag
  and selection, and \<open>preventClipboardAction\<close>, whose notice names the event type.
\<close>

definition preventAction :: "hook_state \<Rightarrow> hook_state" where
  "preventAction st = emit (Alert ''This action is disabled during the exam.'') (preventDefault st)"

definition preventClipboardAction :: "string \<Rightarrow> hook_state \<Rightarrow> hook_state" where
  "preventClipboardAction ty st =
     emit (Alert (''The '' @ [CHR 0x22] @ ty @ [CHR 0x22] @
                  '' action is disabled during the exam.''))
       (preventDefault st)"

definition clipboard :: "config \<Rightarrow> string \<Rightarrow> hook_state \<Rightarrow> hook_state" where
  "clipboard cfg ty st =
     (case variant cfg of DevTools \<Rightarrow> preventClipboardAction ty st | _ \<Rightarrow> preventAction st)"

text \<open>\<open>checkDevTools\<close> (part_000 lines 228-238), the callback of the interval.\<close>

definition checkDevTools :: "config \<Rightarrow> int \<Rightarrow> int \<Rightarrow> int \<Rightarrow> int \<Rightarrow> hook_state \<Rightarrow> hook_state" where
  "checkDevTools cfg outerWidth innerWidth outerHeight innerHeight st =
     (let threshold = 160
      in if outerWidth - innerWidth > threshold \<or> outerHeight - innerHeight > threshold
         then (if \<not> isHandlingViolation st
               then handleViolation cfg ''developer tools opened'' st else st)
         else st)"

text \<open>
  The browser delivers a signal. A fullscreen change first changes the document. Then the
  listener runs, when the effect has attached one for this signal: \<open>dragstart\<close>,
  \<open>selectstart\<close> and the interval exist in \<open>DevTools\<close> only.
\<close>

definition listener :: "config \<Rightarrow> signal \<Rightarrow> hook_state \<Rightarrow> hook_state" where
  "listener cfg s st =
     (case s of
        VisibilityChange hidden \<Rightarrow> handleVisibilityChange cfg hidden st
      | Blur \<Rightarrow> handleBlur cfg st
      | FullscreenChange b \<Rightarrow> handleFullScreenChange cfg st
      | KeyDown e \<Rightarrow> handleKeyDown cfg e st
      | ContextMenu \<Rightarrow> preventDefault st
      | DragStart \<Rightarrow> (case variant cfg of DevTools \<Rightarrow> preventDefault st | _ \<Rightarrow> st)
      | SelectStart \<Rightarrow> (case variant cfg of DevTools \<Rightarrow> preventDefault st | _ \<Rightarrow> st)
      | Copy \<Rightarrow> clipboard cfg ''copy'' st
      | Paste \<Rightarrow> clipboard cfg ''paste'' st
      | Cut \<Rightarrow> clipboard cfg ''cut'' st
      | DevToolsCheck ow iw oh ih \<Rightarrow>
          (case variant cfg of DevTools \<Rightarrow> checkDevTools cfg ow iw oh ih st | _ \<Rightarrow> st))"

definition changeDocument :: "signal \<Rightarrow> hook_state \<Rightarrow> hook_state" where
  "changeDocument s st = (case s of FullscreenChange b \<Rightarrow> st\<lparr>fullscreen := b\<rparr> | _ \<Rightarrow> st)"

definition dispatch :: "config \<Rightarrow> signal \<Rightarrow> hook_state \<Rightarrow> hook_state" where
  "dispatch cfg s st =
     (let st1 = changeDocument s st
      in if subscribed st1 then listener cfg s st1 else st1)"

subsection \<open>Fullscreen requests and the two public functions\<close>

text \<open>
  An asynchronous call settles: it is fulfilled with a value or rejected with an error.
  \<open>await\<close> inside \<open>try\<close> turns a rejection into the \<open>catch\<close> branch. The model runs the
  request and the code after the \<open>await\<close> in one step.
\<close>

datatype 'a settled = Fulfilled 'a | Rejected string

datatype js_value = Undefined | Boolean bool

text \<open>
  \<open>document.documentElement.requestFullscreen()\<close>; the browser grants it or not. The error
  of a rejection is the browser's; the hook only writes it to the console.
\<close>

definition requestFullscreen :: "bool \<Rightarrow> hook_state \<Rightarrow> unit settled \<times> hook_state" where
  "requestFullscreen granted st =
     (let st1 = emit RequestFullscreen st
      in if granted then (Fulfilled (), st1\<lparr>fullscreen := True\<rparr>)
         else (Rejected ''TypeError: Permissions check failed'', st1))"

definition setViolations :: "int \<Rightarrow> hook_state \<Rightarrow> hook_state" where
  "setViolations x st = st\<lparr>pending := Some x\<rparr>"

text \<open>\<open>startExam\<close>: part_000 lines 118-129 and 272-274, part_001 lines 102-118.\<close>

definition startExam :: "config \<Rightarrow> bool \<Rightarrow> hook_state \<Rightarrow> js_value settled \<times> hook_state" where
  "startExam cfg granted st =
     (case variant cfg of
        Prevention \<Rightarrow>
          (case requestFullscreen granted st of
             (Fulfilled u, st1) \<Rightarrow> (Fulfilled (Boolean True), setViolations 0 st1)
           | (Rejected err, st1) \<Rightarrow>
               (Fulfilled (Boolean False),
                emit (Alert ''Fullscreen mode is required to start the exam. Please allow it and try again.'')
                  st1))
      | DevTools \<Rightarrow> (Fulfilled Undefined, setViolations 0 st)
      | Toggle \<Rightarrow>
          (if isSecurityEnabled st then
             (case requestFullscreen granted st of
                (Fulfilled u, st1) \<Rightarrow> (Fulfilled (Boolean True), setViolations 0 st1)
              | (Rejected err, st1) \<Rightarrow>
                  (Fulfilled (Boolean False),
                   emit (Alert ''Fullscreen mode is required for this exam. Please allow it and try again.'')
                     st1))
           else
             (Fulfilled (Boolean True),
              setViolations 0
                (emit (ConsoleWarn ''EXAM SECURITY IS DISABLED. Starting exam without fullscreen.'')
                   st))))"

text \<open>The \<open>catch\<close> branch of \<open>reEnterFullScreen\<close>, the same in the three versions.\<close>

definition reEnterFailed :: "config \<Rightarrow> string \<Rightarrow> hook_state \<Rightarrow> hook_state" where
  "reEnterFailed cfg err st =
     (let st1 = emit (ConsoleError (''Could not re-enter fullscreen: '' @ err)) st
      in if onFinishExam cfg then emit FinishExam st1 else st1)"

text \<open>\<open>reEnterFullScreen\<close>: part_000 lines 132-141 and 276-285, part_001 lines 121-133.\<close>

definition reEnterFullScreen :: "config \<Rightarrow> bool \<Rightarrow> hook_state \<Rightarrow> js_value settled \<times> hook_state" where
  "reEnterFullScreen cfg granted st =
     (case variant cfg of
        Prevention \<Rightarrow>
          (if \<not> fullscreen st then
             (case requestFullscreen granted st of
                (Fulfilled u, st1) \<Rightarrow> (Fulfilled Undefined, st1)
              | (Rejected err, st1) \<Rightarrow> (Fulfilled Undefined, reEnterFailed cfg err st1))
           else (Fulfilled Undefined, st))
      | DevTools \<Rightarrow>
          (if isSecurityEnabled st \<and> \<not> fullscreen st then
             (case requestFullscreen granted st of
                (Fulfilled u, st1) \<Rightarrow> (Fulfilled Undefined, st1)
              | (Rejected err, st1) \<Rightarrow> (Fulfilled Undefined, reEnterFailed cfg err st1))
           else (Fulfilled Undefined, st))
      | Toggle \<Rightarrow>
          (if isSecurityEnabled st then
             (if \<not> fullscreen st then
                (case requestFullscreen granted st of
                   (Fulfilled u, st1) \<Rightarrow> (Fulfilled Undefined, st1)
                 | (Rejected err, st1) \<Rightarrow> (Fulfilled Undefined, reEnterFailed cfg err st1))
              else (Fulfilled Undefined, st))
           else (Fulfilled Undefined, st)))"

subsection \<open>Sessions\<close>

text \<open>
  What can happen to a mounted hook: the browser delivers a signal, time passes, React
  renders the component (with the current values of the two switches), the host calls
  one of the two public functions (the flag says whether the browser would grant a
  fullscreen request).
\<close>

datatype event =
    Signal signal
  | Elapse nat
  | Render bool bool
  | StartExam bool
  | ReEnterFullScreen bool

fun step :: "config \<Rightarrow> event \<Rightarrow> hook_state \<Rightarrow> hook_state" where
  "step cfg (Signal s) st = dispatch cfg s st"
| "step cfg (Elapse d) st = elapse d st"
| "step cfg (Render sec fin) st = render cfg sec fin st"
| "step cfg (StartExam granted) st = snd (startExam cfg granted st)"
| "step cfg (ReEnterFullScreen granted) st = snd (reEnterFullScreen cfg granted st)"

fun run :: "config \<Rightarrow> event list \<Rightarrow> hook_state \<Rightarrow> hook_state" where
  "run cfg [] st = st"
| "run cfg (ev # evs) st = run cfg evs (step cfg ev st)"

subsection \<open>Notions used by the properties\<close>

text \<open>
  The next value of \<open>violations\<close>: what a render would show.
\<close>

definition committed :: "hook_state \<Rightarrow> int" where
  "committed st = (case pending st of Some x \<Rightarrow> x | None \<Rightarrow> violations st)"

text \<open>
  A signal is forwarded when its listener calls \<open>handleViolation\<close>: run with the latch
  released, the listener sets the latch. This says what the signal is, whether or not the
  listener is attached. A signal is counted when its delivery sets a latch that was
  released.
\<close>

definition forwards :: "config \<Rightarrow> signal \<Rightarrow> hook_state \<Rightarrow> bool" where
  "forwards cfg s st =
     isHandlingViolation
       (listener cfg s ((changeDocument s st)\<lparr>isHandlingViolation := False\<rparr>))"

definition counted :: "config \<Rightarrow> signal \<Rightarrow> hook_state \<Rightarrow> bool" where
  "counted cfg s st = (\<not> isHandlingViolation st \<and> isHandlingViolation (dispatch cfg s st))"

text \<open>
  The latch and its timer go together: the latch is set exactly while one timer is
  pending, and that timer is due within 500 ms.
\<close>

definition latchTimed :: "hook_state \<Rightarrow> bool" where
  "latchTimed st =
     ((isHandlingViolation st \<longleftrightarrow> timers st \<noteq> []) \<and> length (timers st) \<le> 1 \<and>
      list_all (\<lambda>t. now st < t \<and> t \<le> now st + 500) (timers st))"

text \<open>What holds of every state of a session.\<close>

definition consistent :: "config \<Rightarrow> hook_state \<Rightarrow> bool" where
  "consistent cfg st =
     (latchTimed st \<and> - 1 \<le> violations st \<and>
      (case pending st of None \<Rightarrow> True | Some x \<Rightarrow> 0 \<le> x) \<and>
      subscribed st =
        eligible (variant cfg) (isSecurityEnabled st) (violations st) (isFinalSubmission st))"

text \<open>The kinds of the warnings the host has received: \<open>True\<close> for a final warning.\<close>

definition kinds :: "effect list \<Rightarrow> bool list" where
  "kinds es = map isFinalWarning (warnings es)"

text \<open>
  What counting depends on and what it produces: the state without the fullscreen flag,
  and of the trace only the kinds of the warnings and the number of submissions.
\<close>

record digest =
  dViolations :: int
  dPending :: "int option"
  dLatch :: bool
  dTimers :: "nat list"
  dNow :: nat
  dSubscribed :: bool
  dSecurity :: bool
  dFinal :: bool
  dKinds :: "bool list"
  dFinishes :: nat

definition digestOf :: "hook_state \<Rightarrow> digest" where
  "digestOf st =
     \<lparr>dViolations = violations st, dPending = pending st, dLatch = isHandlingViolation st,
      dTimers = timers st, dNow = now st, dSubscribed = subscribed st,
      dSecurity = isSecurityEnabled st, dFinal = isFinalSubmission st,
      dKinds = kinds (trace st), dFinishes = finishes (trace st)\<rparr>"

text \<open>\<open>handleViolation\<close> as it acts on a digest.\<close>

definition record_violation :: "config \<Rightarrow> digest \<Rightarrow> digest" where
  "record_violation cfg d =
     (if dLatch d then d
      else
        let newCount = dViolations d + 1
        in d\<lparr>dLatch := True,
              dPending := Some newCount,
              dTimers := dTimers d @ [dNow d + 500],
              dKinds :=
                dKinds d @
                (if newCount \<le> maxViolations cfg \<and> onWarning cfg
                 then [newCount = maxViolations cfg] else []),
              dFinishes :=
                dFinishes d +
                (if \<not> newCount \<le> maxViolations cfg \<and> onFinishExam cfg then 1 else 0)\<rparr>)"

text \<open>Sessions in which the host does not call \<open>startExam\<close> again, and their length in ms.\<close>

text \<open>
  A schedule lists signals with the time that passes before each; React renders after
  each signal, with the same two switches. The signals are apart when more than 500 ms
  pass before each one but the first, and triggering when each is forwarded in the state
  it arrives in.
\<close>

fun rounds :: "bool \<Rightarrow> bool \<Rightarrow> (nat \<times> signal) list \<Rightarrow> event list" where
  "rounds sec fin [] = []"
| "rounds sec fin ((gap, s) # sched) =
     [Elapse gap, Signal s, Render sec fin] @ rounds sec fin sched"

fun apart :: "(nat \<times> signal) list \<Rightarrow> bool" where
  "apart [] = True"
| "apart [x] = True"
| "apart (x # (gap, s) # sched) = (500 < gap \<and> apart ((gap, s) # sched))"

fun triggering :: "config \<Rightarrow> bool \<Rightarrow> bool \<Rightarrow> (nat \<times> signal) list \<Rightarrow> hook_state \<Rightarrow> bool" where
  "triggering cfg sec fin [] st = True"
| "triggering cfg sec fin ((gap, s) # sched) st =
     (forwards cfg s (elapse gap st) \<and>
      triggering cfg sec fin sched (run cfg [Elapse gap, Signal s, Render sec fin] st))"

text \<open>The count has passed the limit, in the state and in the queued update.\<close>

definition terminated :: "config \<Rightarrow> hook_state \<Rightarrow> bool" where
  "terminated cfg st =
     (maxViolations cfg \<le> violations st \<and>
      (case pending st of None \<Rightarrow> True | Some x \<Rightarrow> maxViolations cfg < x))"

fun restarts :: "event \<Rightarrow> bool" where
  "restarts (StartExam granted) = True"
| "restarts ev = False"

fun duration :: "event list \<Rightarrow> nat" where
  "duration [] = 0"
| "duration (Elapse d # evs) = d + duration evs"
| "duration (ev # evs) = duration evs"

subsection \<open>Example sessions\<close>

text \<open>
  A host that passes both callbacks and leaves \<open>maxViolations\<close> at its default 3, and the
  state of its hook after a granted \<open>startExam\<close> and the render that follows, with
  security enabled.
\<close>

definition exampleConfig :: "hook_variant \<Rightarrow> config" where
  "exampleConfig v = \<lparr>variant = v, maxViolations = 3, onFinishExam = True, onWarning = True\<rparr>"

definition started :: "config \<Rightarrow> hook_state" where
  "started cfg = run cfg [StartExam True, Render True False] (mount cfg True False)"

text \<open>A violation every 600 ms, each followed by a render: the tab is hidden \<open>k\<close> times.\<close>

fun hiddenTimes :: "nat \<Rightarrow> event list" where
  "hiddenTimes 0 = []"
| "hiddenTimes (Suc k) =
     [Elapse 600, Signal (VisibilityChange True), Render True False] @ hiddenTimes k"

text \<open>
  Four violations for the schedule of a session: the tab is hidden 100 ms after the start,
  then, each 501 ms after the one before, fullscreen is left, Ctrl+S is pressed and the
  tab is hidden again.
\<close>

definition scenario :: "(nat \<times> signal) list" where
  "scenario =
     [(100, VisibilityChange True),
      (501, FullscreenChange False),
      (501, KeyDown \<lparr>ctrlKey = True, altKey = False, shiftKey = False, key = ''s''\<rparr>),
      (501, VisibilityChange True)]"

text \<open>
  Nine more signals in the 499 ms that follow a first one, with a render in between.
\<close>

definition restOfBurst :: "event list" where
  "restOfBurst =
     [Signal (VisibilityChange True), Elapse 50,
      Signal (FullscreenChange False), Signal Blur, Elapse 100,
      Render True False,
      Signal (VisibilityChange True), Signal (DevToolsCheck 1200 1000 800 800), Elapse 200,
      Signal (VisibilityChange True), Signal (VisibilityChange True),
      Signal (FullscreenChange False), Elapse 149,
      Signal (VisibilityChange True)]"

section \<open>Basic facts\<close>

subsection \<open>Traces, messages and digests\<close>

lemma warnings_append: "warnings (xs @ ys) = warnings xs @ warnings ys"
  by (induction xs rule: warnings.induct) simp_all

lemma finishes_append: "finishes (xs @ ys) = finishes xs + finishes ys"
  by (induction xs rule: finishes.induct) simp_all

lemma alerts_append: "alerts (xs @ ys) = alerts xs @ alerts ys"
  by (induction xs rule: alerts.induct) simp_all

lemma prevented_append: "prevented (xs @ ys) = prevented xs + prevented ys"
  by (induction xs rule: prevented.induct) simp_all

lemma requests_append: "requests (xs @ ys) = requests xs + requests ys"
  by (induction xs rule: requests.induct) simp_all

lemma kinds_append: "kinds (xs @ ys) = kinds xs @ kinds ys"
  by (simp add: kinds_def warnings_append)

lemma final_is_final: "isFinalWarning (finalWarning v reason n)"
  by (cases v) (simp_all add: isFinalWarning_def finalWarning_def finalWarningPlain_def
      finalWarningReason_def)

lemma final_not_warning: "\<not> isWarning (finalWarning v reason n)"
  by (cases v) (simp_all add: isWarning_def finalWarning_def finalWarningPlain_def
      finalWarningReason_def)

lemma warning_is_warning: "isWarning (warning v reason n m)"
  by (cases v) (simp_all add: isWarning_def warning_def warningPlain_def warningReason_def)

lemma warning_not_final: "\<not> isFinalWarning (warning v reason n m)"
  by (cases v) (simp_all add: isFinalWarning_def warning_def warningPlain_def warningReason_def)

lemma message_kind: "isFinalWarning (message cfg reason n) \<longleftrightarrow> n = maxViolations cfg"
  by (simp add: message_def final_is_final warning_not_final)

lemma kinds_single [simp]:
  "kinds [Warning m] = [isFinalWarning m]" "kinds [FinishExam] = []"
  "kinds [Alert a] = []" "kinds [PreventDefault] = []" "kinds [RequestFullscreen] = []"
  "kinds [ConsoleError x] = []" "kinds [ConsoleWarn x] = []"
  by (simp_all add: kinds_def)

lemma digest_emit:
  "digestOf (emit e st) =
     (digestOf st)\<lparr>dKinds := dKinds (digestOf st) @ kinds [e],
                   dFinishes := dFinishes (digestOf st) + finishes [e]\<rparr>"
  by (simp add: digestOf_def emit_def kinds_append finishes_append)

lemma digest_preventDefault [simp]: "digestOf (preventDefault st) = digestOf st"
  by (simp add: preventDefault_def digest_emit)

lemma digest_handleViolation:
  "digestOf (handleViolation cfg reason st) = record_violation cfg (digestOf st)"
  by (simp add: handleViolation_def record_violation_def digestOf_def emit_def Let_def
      kinds_append finishes_append message_kind)

lemma record_violation_latched [simp]: "dLatch d \<Longrightarrow> record_violation cfg d = d"
  by (simp add: record_violation_def)

lemma record_violation_latch [simp]: "dLatch (record_violation cfg d)"
  by (simp add: record_violation_def Let_def)

lemma latch_handleViolation [simp]: "isHandlingViolation (handleViolation cfg reason st)"
  by (simp add: handleViolation_def Let_def emit_def)

lemma latch_preventDefault [simp]:
  "isHandlingViolation (preventDefault st) = isHandlingViolation st"
  by (simp add: preventDefault_def emit_def)

lemma handleViolation_latched [simp]:
  "isHandlingViolation st \<Longrightarrow> handleViolation cfg reason st = st"
  by (simp add: handleViolation_def)

lemma digest_keyDown:
  "digestOf (handleKeyDown cfg e st) = digestOf st \<or>
   digestOf (handleKeyDown cfg e st) = record_violation cfg (digestOf st)"
  by (cases "variant cfg") (simp_all add: handleKeyDown_def Let_def digest_handleViolation)

lemma digest_clipboard [simp]: "digestOf (clipboard cfg ty st) = digestOf st"
  by (cases "variant cfg")
    (simp_all add: clipboard_def preventAction_def preventClipboardAction_def digest_emit)

lemma digest_checkDevTools:
  "digestOf (checkDevTools cfg ow iw oh ih st) = digestOf st \<or>
   digestOf (checkDevTools cfg ow iw oh ih st) = record_violation cfg (digestOf st)"
  by (simp add: checkDevTools_def Let_def digest_handleViolation)

lemma digest_listener:
  "digestOf (listener cfg s st) = digestOf st \<or>
   digestOf (listener cfg s st) = record_violation cfg (digestOf st)"
proof (cases s)
  case (KeyDown e)
  then show ?thesis using digest_keyDown [of cfg e st] by (simp add: listener_def)
next
  case (DevToolsCheck ow iw oh ih)
  then show ?thesis using digest_checkDevTools [of cfg ow iw oh ih st]
    by (cases "variant cfg") (simp_all add: listener_def)
qed (cases "variant cfg"; simp add: listener_def handleVisibilityChange_def handleBlur_def
      handleFullScreenChange_def digest_handleViolation)+

lemma digest_fullscreen [simp]: "digestOf (st\<lparr>fullscreen := b\<rparr>) = digestOf st"
  by (simp add: digestOf_def)

lemma digest_changeDocument [simp]: "digestOf (changeDocument s st) = digestOf st"
  by (cases s) (simp_all add: changeDocument_def)

lemma digest_dispatch:
  "digestOf (dispatch cfg s st) = digestOf st \<or>
   digestOf (dispatch cfg s st) = record_violation cfg (digestOf st)"
  using digest_listener [of cfg s "changeDocument s st"]
  by (auto simp add: dispatch_def Let_def)

lemma fields_of_digest:
  "violations st = dViolations (digestOf st)" "pending st = dPending (digestOf st)"
  "isHandlingViolation st = dLatch (digestOf st)" "timers st = dTimers (digestOf st)"
  "now st = dNow (digestOf st)" "subscribed st = dSubscribed (digestOf st)"
  "isSecurityEnabled st = dSecurity (digestOf st)"
  "isFinalSubmission st = dFinal (digestOf st)"
  "kinds (trace st) = dKinds (digestOf st)" "finishes (trace st) = dFinishes (digestOf st)"
  by (simp_all add: digestOf_def)

text \<open>A signal that arrives while the latch is set changes nothing that counts.\<close>

lemma dispatch_latched:
  assumes "isHandlingViolation st"
  shows "digestOf (dispatch cfg s st) = digestOf st"
  using digest_dispatch [of cfg s st] assms by (auto simp add: fields_of_digest)

lemma dispatch_counted:
  assumes "counted cfg s st"
  shows "digestOf (dispatch cfg s st) = record_violation cfg (digestOf st)"
  using digest_dispatch [of cfg s st] assms by (auto simp add: counted_def fields_of_digest)

lemma dispatch_not_counted:
  assumes "\<not> counted cfg s st"
  shows "digestOf (dispatch cfg s st) = digestOf st"
proof (cases "isHandlingViolation st")
  case True
  then show ?thesis by (rule dispatch_latched)
next
  case False
  with assms have "\<not> dLatch (digestOf (dispatch cfg s st))"
    by (simp add: counted_def fields_of_digest)
  with digest_dispatch [of cfg s st] show ?thesis by auto
qed

lemma subscribed_changeDocument [simp]: "subscribed (changeDocument s st) = subscribed st"
  by (cases s) (simp_all add: changeDocument_def)

lemma latch_changeDocument [simp]:
  "isHandlingViolation (changeDocument s st) = isHandlingViolation st"
  by (cases s) (simp_all add: changeDocument_def)

lemma forwards_counted:
  assumes "\<not> isHandlingViolation st" and "subscribed st"
  shows "forwards cfg s st = counted cfg s st"
proof -
  from assms(1)
  have eq: "(changeDocument s st)\<lparr>isHandlingViolation := False\<rparr> = changeDocument s st"
    by simp
  show ?thesis unfolding forwards_def counted_def eq using assms
    by (simp add: dispatch_def Let_def)
qed

text \<open>Which of the plain signals are forwarded, read off the listeners.\<close>

lemma forwards_plain:
  "forwards cfg (VisibilityChange hidden) st \<longleftrightarrow> hidden"
  "forwards cfg Blur st \<longleftrightarrow> fullscreen st"
  "forwards cfg (FullscreenChange b) st \<longleftrightarrow> \<not> b"
  "\<not> forwards cfg ContextMenu st" "\<not> forwards cfg DragStart st"
  "\<not> forwards cfg SelectStart st"
  "\<not> forwards cfg Copy st" "\<not> forwards cfg Paste st" "\<not> forwards cfg Cut st"
  "forwards cfg (DevToolsCheck ow iw oh ih) st \<longleftrightarrow>
     variant cfg = DevTools \<and> (160 < ow - iw \<or> 160 < oh - ih)"
  by (cases "variant cfg";
      simp add: forwards_def listener_def changeDocument_def handleVisibilityChange_def
        handleBlur_def handleFullScreenChange_def checkDevTools_def clipboard_def
        preventAction_def preventClipboardAction_def preventDefault_def emit_def)+

subsection \<open>Every state of a session is consistent\<close>

lemma consistent_digest:
  "digestOf st' = digestOf st \<Longrightarrow> consistent cfg st' = consistent cfg st"
  by (simp add: consistent_def latchTimed_def fields_of_digest)

text \<open>What a state looks like after one violation has been recorded on \<open>st\<close>.\<close>

lemma recorded_fields:
  assumes "\<not> isHandlingViolation st"
    and "digestOf st' = record_violation cfg (digestOf st)"
  shows "violations st' = violations st" "pending st' = Some (violations st + 1)"
    "isHandlingViolation st'" "timers st' = timers st @ [now st + 500]" "now st' = now st"
    "subscribed st' = subscribed st" "isSecurityEnabled st' = isSecurityEnabled st"
    "isFinalSubmission st' = isFinalSubmission st"
    "kinds (trace st') = kinds (trace st) @
       (if violations st + 1 \<le> maxViolations cfg \<and> onWarning cfg
        then [violations st + 1 = maxViolations cfg] else [])"
    "finishes (trace st') = finishes (trace st) +
       (if \<not> violations st + 1 \<le> maxViolations cfg \<and> onFinishExam cfg then 1 else 0)"
proof -
  have d: "digestOf st' =
      (digestOf st)\<lparr>dLatch := True, dPending := Some (violations st + 1),
        dTimers := timers st @ [now st + 500],
        dKinds := kinds (trace st) @
          (if violations st + 1 \<le> maxViolations cfg \<and> onWarning cfg
           then [violations st + 1 = maxViolations cfg] else []),
        dFinishes := finishes (trace st) +
          (if \<not> violations st + 1 \<le> maxViolations cfg \<and> onFinishExam cfg then 1 else 0)\<rparr>"
    using assms by (simp add: record_violation_def Let_def digestOf_def)
  show "violations st' = violations st" "pending st' = Some (violations st + 1)"
    "isHandlingViolation st'" "timers st' = timers st @ [now st + 500]" "now st' = now st"
    "subscribed st' = subscribed st" "isSecurityEnabled st' = isSecurityEnabled st"
    "isFinalSubmission st' = isFinalSubmission st"
    "kinds (trace st') = kinds (trace st) @
       (if violations st + 1 \<le> maxViolations cfg \<and> onWarning cfg
        then [violations st + 1 = maxViolations cfg] else [])"
    "finishes (trace st') = finishes (trace st) +
       (if \<not> violations st + 1 \<le> maxViolations cfg \<and> onFinishExam cfg then 1 else 0)"
    unfolding fields_of_digest [of st'] d by (simp_all add: digestOf_def)
qed

lemma same_fields:
  assumes "digestOf st' = digestOf st"
  shows "violations st' = violations st" "pending st' = pending st"
    "isHandlingViolation st' = isHandlingViolation st" "timers st' = timers st"
    "now st' = now st" "subscribed st' = subscribed st"
    "isSecurityEnabled st' = isSecurityEnabled st"
    "isFinalSubmission st' = isFinalSubmission st"
    "kinds (trace st') = kinds (trace st)" "finishes (trace st') = finishes (trace st)"
  unfolding fields_of_digest assms by simp_all

lemma consistent_record:
  assumes "consistent cfg st" and "digestOf st' = record_violation cfg (digestOf st)"
  shows "consistent cfg st'"
proof (cases "isHandlingViolation st")
  case True
  then have "dLatch (digestOf st)" by (simp add: digestOf_def)
  with assms(2) have "digestOf st' = digestOf st" by simp
  with assms(1) show ?thesis using consistent_digest [of st' st cfg] by simp
next
  case False
  with assms(1) have t: "timers st = []" by (simp add: consistent_def latchTimed_def)
  from assms(1) show ?thesis
    by (simp add: consistent_def latchTimed_def recorded_fields [OF False assms(2)] t)
qed

lemma consistent_dispatch: "consistent cfg st \<Longrightarrow> consistent cfg (dispatch cfg s st)"
  using digest_dispatch [of cfg s st] consistent_digest [of "dispatch cfg s st" st cfg]
    consistent_record [of cfg st "dispatch cfg s st"] by auto

lemma consistent_elapse: "consistent cfg st \<Longrightarrow> consistent cfg (elapse d st)"
  by (cases "timers st")
    (auto simp add: consistent_def latchTimed_def elapse_def Let_def)

lemma consistent_render: "consistent cfg st \<Longrightarrow> consistent cfg (render cfg sec fin st)"
  by (auto simp add: consistent_def latchTimed_def render_def Let_def split: option.splits)

lemma digest_requestFullscreen [simp]:
  "digestOf (snd (requestFullscreen granted st)) = digestOf st"
  by (simp add: requestFullscreen_def Let_def digest_emit)

lemma consistent_startExam: "consistent cfg st \<Longrightarrow> consistent cfg (snd (startExam cfg granted st))"
  by (cases "variant cfg"; cases granted)
    (simp_all add: consistent_def latchTimed_def startExam_def requestFullscreen_def Let_def
      setViolations_def emit_def)

lemma digest_reEnterFullScreen_fields:
  "violations (snd (reEnterFullScreen cfg granted st)) = violations st"
  "pending (snd (reEnterFullScreen cfg granted st)) = pending st"
  "isHandlingViolation (snd (reEnterFullScreen cfg granted st)) = isHandlingViolation st"
  "timers (snd (reEnterFullScreen cfg granted st)) = timers st"
  "now (snd (reEnterFullScreen cfg granted st)) = now st"
  "subscribed (snd (reEnterFullScreen cfg granted st)) = subscribed st"
  "isSecurityEnabled (snd (reEnterFullScreen cfg granted st)) = isSecurityEnabled st"
  "isFinalSubmission (snd (reEnterFullScreen cfg granted st)) = isFinalSubmission st"
  "warnings (trace (snd (reEnterFullScreen cfg granted st))) = warnings (trace st)"
  by (cases "variant cfg"; cases granted;
      simp add: reEnterFullScreen_def requestFullscreen_def reEnterFailed_def Let_def emit_def
        warnings_append)+

lemma consistent_reEnterFullScreen:
  "consistent cfg st \<Longrightarrow> consistent cfg (snd (reEnterFullScreen cfg granted st))"
  by (simp add: consistent_def latchTimed_def digest_reEnterFullScreen_fields)

lemma consistent_step: "consistent cfg st \<Longrightarrow> consistent cfg (step cfg ev st)"
  by (cases ev)
    (simp_all add: consistent_dispatch consistent_elapse consistent_render
      consistent_startExam consistent_reEnterFullScreen)

lemma consistent_run: "consistent cfg st \<Longrightarrow> consistent cfg (run cfg evs st)"
  by (induction evs arbitrary: st) (simp_all add: consistent_step)

lemma consistent_mount: "consistent cfg (mount cfg sec fin)"
  by (cases "variant cfg")
    (simp_all add: consistent_def latchTimed_def mount_def render_def unmounted_def eligible_def)

lemma dispatch_unsubscribed:
  "\<not> subscribed st \<Longrightarrow> trace (dispatch cfg s st) = trace st \<and>
     \<not> subscribed (dispatch cfg s st) "
  by (cases s) (simp_all add: dispatch_def changeDocument_def)

lemma signals_unsubscribed:
  "\<not> subscribed st \<Longrightarrow> trace (run cfg (map Signal ss) st) = trace st"
  by (induction ss arbitrary: st) (simp_all add: dispatch_unsubscribed)

subsection \<open>The example sessions, evaluated\<close>

lemma exampleConfig_simps [simp]:
  "variant (exampleConfig v) = v" "maxViolations (exampleConfig v) = 3"
  "onFinishExam (exampleConfig v)" "onWarning (exampleConfig v)"
  by (simp_all add: exampleConfig_def)

lemma mount_simps:
  "mount cfg sec fin =
     \<lparr>violations = - 1, pending = None, isHandlingViolation = False, timers = [],
      now = 0, subscribed = False, isSecurityEnabled = sec, isFinalSubmission = fin,
      fullscreen = False, trace = []\<rparr>"
  by (cases "variant cfg") (simp_all add: mount_def unmounted_def render_def eligible_def)

lemma started_simps:
  "started (exampleConfig v) =
     \<lparr>violations = 0, pending = None, isHandlingViolation = False, timers = [],
      now = 0, subscribed = True, isSecurityEnabled = True, isFinalSubmission = False,
      fullscreen = (v \<noteq> DevTools), trace = (if v = DevTools then [] else [RequestFullscreen])\<rparr>"
  by (cases v)
    (simp_all add: started_def mount_simps render_def
      startExam_def requestFullscreen_def setViolations_def emit_def eligible_def Let_def)

subsection \<open>Time, renders and schedules\<close>

lemma elapse_releases:
  assumes "latchTimed st" and "isHandlingViolation st \<longrightarrow> 500 \<le> gap"
  shows "\<not> isHandlingViolation (elapse gap st)" "timers (elapse gap st) = []"
    "latchTimed (elapse gap st)"
proof -
  show "\<not> isHandlingViolation (elapse gap st)" "timers (elapse gap st) = []"
    using assms by (cases "timers st"; auto simp add: latchTimed_def elapse_def Let_def)+
  then show "latchTimed (elapse gap st)" by (simp add: latchTimed_def)
qed

lemma elapse_fields [simp]:
  "violations (elapse d st) = violations st" "pending (elapse d st) = pending st"
  "subscribed (elapse d st) = subscribed st" "trace (elapse d st) = trace st"
  "isSecurityEnabled (elapse d st) = isSecurityEnabled st"
  "isFinalSubmission (elapse d st) = isFinalSubmission st"
  "now (elapse d st) = now st + d"
  by (simp_all add: elapse_def Let_def)

lemma render_fields [simp]:
  "pending (render cfg sec fin st) = None"
  "isHandlingViolation (render cfg sec fin st) = isHandlingViolation st"
  "timers (render cfg sec fin st) = timers st" "now (render cfg sec fin st) = now st"
  "trace (render cfg sec fin st) = trace st"
  "isSecurityEnabled (render cfg sec fin st) = sec"
  "isFinalSubmission (render cfg sec fin st) = fin"
  "violations (render cfg sec fin st) = committed st"
  "subscribed (render cfg sec fin st) = eligible (variant cfg) sec (committed st) fin"
  by (simp_all add: render_def Let_def committed_def)

lemma eligible_started:
  "eligible v sec 0 fin \<Longrightarrow> 0 \<le> n \<Longrightarrow> eligible v sec n fin"
  by (cases v) (auto simp add: eligible_def)

text \<open>One round of a schedule, from a rendered state with the listeners attached.\<close>

lemma round_effect:
  assumes "latchTimed st" and "isHandlingViolation st \<longrightarrow> 500 < gap"
    and "subscribed st" and "pending st = None" and "0 \<le> violations st"
    and "eligible (variant cfg) sec 0 fin"
    and "forwards cfg s (elapse gap st)"
    and "st' = run cfg [Elapse gap, Signal s, Render sec fin] st"
  shows "violations st' = violations st + 1" "pending st' = None" "isHandlingViolation st'"
    "latchTimed st'" "subscribed st'"
    "kinds (trace st') = kinds (trace st) @
       (if violations st + 1 \<le> maxViolations cfg \<and> onWarning cfg
        then [violations st + 1 = maxViolations cfg] else [])"
    "finishes (trace st') = finishes (trace st) +
       (if \<not> violations st + 1 \<le> maxViolations cfg \<and> onFinishExam cfg then 1 else 0)"
proof -
  let ?e = "elapse gap st"
  let ?d = "dispatch cfg s ?e"
  from assms(2) have g: "isHandlingViolation st \<longrightarrow> 500 \<le> gap" by auto
  note r = elapse_releases [OF assms(1) g]
  from assms(3) have "subscribed ?e" by simp
  with r(1) assms(7) have "counted cfg s ?e" by (simp add: forwards_counted)
  then have "digestOf ?d = record_violation cfg (digestOf ?e)" by (rule dispatch_counted)
  note f = recorded_fields [OF r(1) this]
  have st': "st' = render cfg sec fin ?d" by (simp add: assms(8))
  from f have c: "committed ?d = violations st + 1" by (simp add: committed_def)
  show "violations st' = violations st + 1" by (simp add: st' c)
  show "pending st' = None" by (simp add: st')
  show "isHandlingViolation st'" by (simp add: st' f)
  show "latchTimed st'" using f r(2) by (simp add: st' latchTimed_def)
  show "subscribed st'" using assms(5,6) by (simp add: st' c eligible_started)
  show "kinds (trace st') = kinds (trace st) @
       (if violations st + 1 \<le> maxViolations cfg \<and> onWarning cfg
        then [violations st + 1 = maxViolations cfg] else [])"
    using f(9) by (simp add: st')
  show "finishes (trace st') = finishes (trace st) +
       (if \<not> violations st + 1 \<le> maxViolations cfg \<and> onFinishExam cfg then 1 else 0)"
    using f(10) by (simp add: st')
qed

lemma rounds_effect:
  assumes "latchTimed st" and "subscribed st" and "pending st = None" and "0 \<le> violations st"
    and "eligible (variant cfg) sec 0 fin"
    and "apart sched" and "isHandlingViolation st \<longrightarrow> (\<forall>x \<in> set (take 1 sched). 500 < fst x)"
    and "triggering cfg sec fin sched st"
  shows "violations (run cfg (rounds sec fin sched) st) = violations st + int (length sched) \<and>
         finishes (trace (run cfg (rounds sec fin sched) st)) =
           finishes (trace st) +
           (if onFinishExam cfg
            then nat (min (int (length sched))
                       (violations st + int (length sched) - maxViolations cfg))
            else 0) \<and>
         (sched \<noteq> [] \<and> onWarning cfg \<and>
          violations st + int (length sched) \<le> maxViolations cfg \<longrightarrow>
            kinds (trace (run cfg (rounds sec fin sched) st)) \<noteq> [] \<and>
            last (kinds (trace (run cfg (rounds sec fin sched) st))) =
              (violations st + int (length sched) = maxViolations cfg))"
  using assms
proof (induction sched arbitrary: st)
  case Nil
  then show ?case by simp
next
  case (Cons x sched)
  obtain gap s where x: "x = (gap, s)" by (cases x)
  let ?st' = "run cfg [Elapse gap, Signal s, Render sec fin] st"
  from Cons.prems(7) x have g: "isHandlingViolation st \<longrightarrow> 500 < gap" by simp
  from Cons.prems(8) x have fw: "forwards cfg s (elapse gap st)"
    and tr: "triggering cfg sec fin sched ?st'" by simp_all
  note r = round_effect [OF Cons.prems(1) g Cons.prems(2,3,4,5) fw refl]
  from Cons.prems(6) x have ap: "apart sched" by (cases sched) auto
  from Cons.prems(6) x have hd: "isHandlingViolation ?st' \<longrightarrow> (\<forall>y \<in> set (take 1 sched). 500 < fst y)"
    by (cases sched) auto
  from r(1) Cons.prems(4) have nn: "0 \<le> violations ?st'" by simp
  note IH = Cons.IH [OF r(4) r(5) r(2) nn Cons.prems(5) ap hd tr]
  have run: "run cfg (rounds sec fin (x # sched)) st = run cfg (rounds sec fin sched) ?st'"
    by (simp add: x)
  show ?case
  proof (cases sched)
    case Nil
    with r x show ?thesis by simp
  next
    case (Cons y ys)
    with IH r(1,6,7) show ?thesis unfolding run by (auto simp add: min_def)
  qed
qed

lemma armed_state:
  assumes "variant cfg = Prevention \<or> (sec \<and> \<not> fin)"
  shows "run cfg [StartExam True, Render sec fin] (mount cfg sec fin) =
     \<lparr>violations = 0, pending = None, isHandlingViolation = False, timers = [],
      now = 0, subscribed = True, isSecurityEnabled = sec, isFinalSubmission = fin,
      fullscreen = (variant cfg \<noteq> DevTools),
      trace = (if variant cfg = DevTools then [] else [RequestFullscreen])\<rparr>"
  using assms
  by (cases "variant cfg")
    (auto simp add: mount_simps render_def startExam_def requestFullscreen_def
      setViolations_def emit_def eligible_def Let_def)

lemma last_kinds:
  "kinds es \<noteq> [] \<Longrightarrow> warnings es \<noteq> [] \<and> last (kinds es) = isFinalWarning (last (warnings es))"
  by (auto simp add: kinds_def last_map)

lemma committed_digest:
  assumes "digestOf st' = digestOf st"
  shows "committed st' = committed st"
  by (simp add: committed_def same_fields [OF assms] split: option.splits)

lemma held_step:
  assumes "isHandlingViolation st" and "timers st = [T]" and "\<not> restarts ev"
    and "now st + duration [ev] < T"
  shows "isHandlingViolation (step cfg ev st) \<and> timers (step cfg ev st) = [T] \<and>
         now (step cfg ev st) = now st + duration [ev] \<and>
         committed (step cfg ev st) = committed st"
proof (cases ev)
  case (Signal s)
  have d: "digestOf (dispatch cfg s st) = digestOf st"
    using assms(1) by (rule dispatch_latched)
  show ?thesis using assms Signal by (simp add: same_fields [OF d] committed_digest [OF d])
next
  case (Elapse d)
  then show ?thesis using assms
    by (simp add: elapse_def Let_def committed_def split: option.splits)
next
  case (Render sec fin)
  then show ?thesis using assms
    by (simp add: render_def Let_def committed_def split: option.splits)
next
  case (StartExam granted)
  then show ?thesis using assms by simp
next
  case (ReEnterFullScreen granted)
  then show ?thesis using assms
    by (simp add: committed_def digest_reEnterFullScreen_fields split: option.splits)
qed

lemma duration_Cons: "duration (ev # evs) = duration [ev] + duration evs"
  by (cases ev) simp_all

lemma held_run:
  assumes "isHandlingViolation st" and "timers st = [T]" and "\<forall>ev \<in> set evs. \<not> restarts ev"
    and "now st + duration evs < T"
  shows "isHandlingViolation (run cfg evs st) \<and> committed (run cfg evs st) = committed st"
  using assms
proof (induction evs arbitrary: st)
  case Nil
  then show ?case by simp
next
  case (Cons ev evs)
  from Cons.prems have d: "now st + duration [ev] < T"
    using duration_Cons [of ev evs] by simp
  from Cons.prems have r: "\<not> restarts ev" by simp
  note h = held_step [OF Cons.prems(1,2) r d, of cfg]
  have "now (step cfg ev st) + duration evs < T"
    using h Cons.prems(4) duration_Cons [of ev evs] by simp
  with Cons.IH [of "step cfg ev st"] h Cons.prems(3) show ?case by simp
qed

lemma latch_kept:
  assumes "isHandlingViolation st" and "\<forall>d. ev \<noteq> Elapse d"
  shows "isHandlingViolation (step cfg ev st)"
proof (cases ev)
  case (Signal s)
  have d: "digestOf (dispatch cfg s st) = digestOf st"
    using assms(1) by (rule dispatch_latched)
  show ?thesis using assms Signal by (simp add: same_fields [OF d])
next
  case (StartExam granted)
  then show ?thesis using assms(1)
    by (cases "variant cfg"; cases granted)
      (simp_all add: startExam_def requestFullscreen_def Let_def emit_def setViolations_def)
qed (use assms in \<open>simp_all add: render_def Let_def digest_reEnterFullScreen_fields\<close>)

lemma length_kinds: "length (kinds es) = length (warnings es)"
  by (simp add: kinds_def)

lemma terminated_step:
  assumes "terminated cfg st" and "\<not> restarts ev"
  shows "terminated cfg (step cfg ev st) \<and>
         length (warnings (trace (step cfg ev st))) = length (warnings (trace st))"
proof (cases ev)
  case (Signal s)
  show ?thesis
  proof (cases "counted cfg s st")
    case True
    then have l: "\<not> isHandlingViolation st" by (simp add: counted_def)
    note f = recorded_fields [OF l dispatch_counted [OF True]]
    from assms(1) have "\<not> violations st + 1 \<le> maxViolations cfg"
      by (simp add: terminated_def)
    with f(9) have "kinds (trace (dispatch cfg s st)) = kinds (trace st)" by simp
    then have "length (warnings (trace (dispatch cfg s st))) = length (warnings (trace st))"
      using length_kinds by metis
    with assms(1) f Signal show ?thesis by (simp add: terminated_def)
  next
    case False
    note f = same_fields [OF dispatch_not_counted [OF False]]
    from f(9) have "length (warnings (trace (dispatch cfg s st))) = length (warnings (trace st))"
      using length_kinds by metis
    with assms(1) f Signal show ?thesis by (simp add: terminated_def)
  qed
next
  case (Elapse d)
  with assms show ?thesis by (simp add: terminated_def)
next
  case (Render sec fin)
  with assms show ?thesis by (auto simp add: terminated_def committed_def split: option.splits)
next
  case (StartExam granted)
  with assms show ?thesis by simp
next
  case (ReEnterFullScreen granted)
  with assms show ?thesis by (simp add: terminated_def digest_reEnterFullScreen_fields)
qed

lemma terminated_run:
  assumes "terminated cfg st" and "\<forall>ev \<in> set evs. \<not> restarts ev"
  shows "terminated cfg (run cfg evs st) \<and>
         length (warnings (trace (run cfg evs st))) = length (warnings (trace st))"
  using assms
proof (induction evs arbitrary: st)
  case Nil
  then show ?case by simp
next
  case (Cons ev evs)
  then have "\<not> restarts ev" by simp
  note s = terminated_step [OF Cons.prems(1) this]
  with Cons.IH [of "step cfg ev st"] Cons.prems(2) show ?case by simp
qed

lemma handleViolation_trace:
  assumes "\<not> isHandlingViolation st"
  shows "trace (handleViolation cfg reason st) =
     trace st @
     (if violations st + 1 \<le> maxViolations cfg
      then (if onWarning cfg then [Warning (message cfg reason (violations st + 1))] else [])
      else (if onFinishExam cfg then [FinishExam] else []))"
    "pending (handleViolation cfg reason st) = Some (violations st + 1)"
    "violations (handleViolation cfg reason st) = violations st"
  using assms by (simp_all add: handleViolation_def Let_def emit_def)

section \<open>Properties of the hook\<close>

subsection \<open>Missing callbacks\<close>

text \<open>
  C10. A violation that passes the guard is handled in full when the host passed no
  \<open>onWarning\<close> or no \<open>onFinishExam\<close>: the count shown by the next render is one more, the
  latch is set, stays set for less than 500 ms and is released at 500 ms, and the call of
  the missing callback is skipped (\<open>?.\<close>): nothing is added to the trace for it. The
  handler has no other outcome than the new state.
\<close>

theorem handleViolation_without_callbacks:
  assumes "\<not> onWarning cfg \<or> \<not> onFinishExam cfg"
    and "\<not> isHandlingViolation st" and "latchTimed st"
  shows "violations (render cfg sec fin (handleViolation cfg reason st)) = violations st + 1 \<and>
         isHandlingViolation (handleViolation cfg reason st) \<and>
         (\<forall>d < 500. isHandlingViolation (elapse d (handleViolation cfg reason st))) \<and>
         \<not> isHandlingViolation (elapse 500 (handleViolation cfg reason st)) \<and>
         (\<not> onWarning cfg \<longrightarrow>
            warnings (trace (handleViolation cfg reason st)) = warnings (trace st)) \<and>
         (\<not> onFinishExam cfg \<longrightarrow>
            finishes (trace (handleViolation cfg reason st)) = finishes (trace st)) \<and>
         (\<not> onWarning cfg \<and> \<not> onFinishExam cfg \<longrightarrow>
            trace (handleViolation cfg reason st) = trace st)"
proof -
  from assms(2,3) have t: "timers st = []" by (simp add: latchTimed_def)
  with assms(2) show ?thesis
    by (simp add: handleViolation_def Let_def render_def elapse_def emit_def warnings_append
        finishes_append)
qed

theorem handleViolation_without_callbacks_witness:
  "violations (render ((exampleConfig Toggle)\<lparr>onWarning := False\<rparr>) True False
      (handleViolation ((exampleConfig Toggle)\<lparr>onWarning := False\<rparr>) ''Switched tabs''
         (started (exampleConfig Toggle)))) = 1 \<and>
   \<not> isHandlingViolation (elapse 500
      (handleViolation ((exampleConfig Toggle)\<lparr>onWarning := False\<rparr>) ''Switched tabs''
         (started (exampleConfig Toggle)))) \<and>
   warnings (trace (handleViolation ((exampleConfig Toggle)\<lparr>onWarning := False\<rparr>)
      ''Switched tabs'' (started (exampleConfig Toggle)))) = []"
proof -
  have a: "\<not> onWarning ((exampleConfig Toggle)\<lparr>onWarning := False\<rparr>) \<or>
           \<not> onFinishExam ((exampleConfig Toggle)\<lparr>onWarning := False\<rparr>)"
    by simp
  have b: "\<not> isHandlingViolation (started (exampleConfig Toggle))"
    by (simp add: started_simps)
  have c: "latchTimed (started (exampleConfig Toggle))"
    by (simp add: started_simps latchTimed_def)
  from handleViolation_without_callbacks [OF a b c, of True False "''Switched tabs''"]
  show ?thesis by (simp add: started_simps)
qed

subsection \<open>Window blur\<close>

text \<open>
  C9. While the listeners are attached, \<open>handleBlur\<close> passes a blur to \<open>handleViolation\<close>
  exactly when the document is in fullscreen (the reason is "switched window" in
  \<open>DevTools\<close> and "Left exam window" in the two other versions, whose messages do not
  show it); a blur outside fullscreen leaves the state as it is. So a blur is counted
  exactly when the document is in fullscreen and the latch is released, and the blur
  that follows a fullscreen exit adds nothing to what the fullscreen-change signal did.
\<close>

theorem blur_counts_in_fullscreen_only:
  assumes "subscribed st"
  shows "dispatch cfg Blur st =
           (if fullscreen st
            then handleViolation cfg
                   (case variant cfg of DevTools \<Rightarrow> ''switched window''
                    | _ \<Rightarrow> ''Left exam window'') st
            else st) \<and>
         (forwards cfg Blur st \<longleftrightarrow> fullscreen st) \<and>
         (counted cfg Blur st \<longleftrightarrow> fullscreen st \<and> \<not> isHandlingViolation st) \<and>
         dispatch cfg Blur (dispatch cfg (FullscreenChange False) st) =
           dispatch cfg (FullscreenChange False) st"
proof -
  have 1: "dispatch cfg Blur st =
           (if fullscreen st
            then handleViolation cfg
                   (case variant cfg of DevTools \<Rightarrow> ''switched window''
                    | _ \<Rightarrow> ''Left exam window'') st
            else st)"
    using assms by (simp add: dispatch_def listener_def handleBlur_def changeDocument_def)
  have 2: "forwards cfg Blur st \<longleftrightarrow> fullscreen st"
    by (simp add: forwards_def listener_def handleBlur_def changeDocument_def)
  have 3: "counted cfg Blur st \<longleftrightarrow> fullscreen st \<and> \<not> isHandlingViolation st"
    unfolding counted_def 1 by auto
  have 4: "dispatch cfg Blur (dispatch cfg (FullscreenChange False) st) =
           dispatch cfg (FullscreenChange False) st"
    using assms
    by (simp add: dispatch_def listener_def handleBlur_def handleFullScreenChange_def
        handleViolation_def changeDocument_def Let_def emit_def)
  from 1 2 3 4 show ?thesis by blast
qed

theorem blur_counts_in_fullscreen_only_witness:
  "counted (exampleConfig Toggle) Blur (started (exampleConfig Toggle)) \<and>
   \<not> counted (exampleConfig DevTools) Blur (started (exampleConfig DevTools))"
proof -
  have a: "subscribed (started (exampleConfig Toggle))"
    by (simp add: started_simps)
  have b: "subscribed (started (exampleConfig DevTools))"
    by (simp add: started_simps)
  from blur_counts_in_fullscreen_only [OF a, of "exampleConfig Toggle"]
    blur_counts_in_fullscreen_only [OF b, of "exampleConfig DevTools"]
  show ?thesis by (simp add: started_simps)
qed

subsection \<open>Suppressed actions\<close>

text \<open>
  C8, as amended. In \<open>DevTools\<close>, while the listeners are attached, the context menu,
  drag, text selection, copy, paste and cut are default-prevented every time they fire,
  whatever the latch; they change neither the counter, the latch nor its timer and call
  neither callback. Copy, paste and cut also show a notice that names the action; the
  context menu, drag and selection show none.
\<close>

theorem suppressed_actions:
  assumes "variant cfg = DevTools" and "subscribed st"
  shows "dispatch cfg ContextMenu st = emit PreventDefault st \<and>
         dispatch cfg DragStart st = emit PreventDefault st \<and>
         dispatch cfg SelectStart st = emit PreventDefault st \<and>
         dispatch cfg Copy st =
           emit (Alert (''The '' @ [CHR 0x22] @ ''copy'' @ [CHR 0x22] @
                        '' action is disabled during the exam.''))
             (emit PreventDefault st) \<and>
         dispatch cfg Paste st =
           emit (Alert (''The '' @ [CHR 0x22] @ ''paste'' @ [CHR 0x22] @
                        '' action is disabled during the exam.''))
             (emit PreventDefault st) \<and>
         dispatch cfg Cut st =
           emit (Alert (''The '' @ [CHR 0x22] @ ''cut'' @ [CHR 0x22] @
                        '' action is disabled during the exam.''))
             (emit PreventDefault st) \<and>
         (\<forall>s \<in> {ContextMenu, DragStart, SelectStart, Copy, Paste, Cut}.
            prevented (trace (dispatch cfg s st)) = Suc (prevented (trace st)) \<and>
            violations (dispatch cfg s st) = violations st \<and>
            pending (dispatch cfg s st) = pending st \<and>
            isHandlingViolation (dispatch cfg s st) = isHandlingViolation st \<and>
            timers (dispatch cfg s st) = timers st \<and>
            warnings (trace (dispatch cfg s st)) = warnings (trace st) \<and>
            finishes (trace (dispatch cfg s st)) = finishes (trace st) \<and>
            (alerts (trace (dispatch cfg s st)) \<noteq> alerts (trace st) \<longleftrightarrow>
               s \<in> {Copy, Paste, Cut}))"
  using assms
  by (simp add: dispatch_def changeDocument_def listener_def clipboard_def preventClipboardAction_def
      preventDefault_def emit_def prevented_append warnings_append finishes_append
      alerts_append)

theorem suppressed_actions_witness:
  "prevented (trace (dispatch (exampleConfig DevTools) Paste
      (dispatch (exampleConfig DevTools) Paste (started (exampleConfig DevTools))))) = 2 \<and>
   violations (dispatch (exampleConfig DevTools) Paste
      (dispatch (exampleConfig DevTools) Paste (started (exampleConfig DevTools)))) = 0"
proof -
  let ?c = "exampleConfig DevTools"
  let ?st = "dispatch ?c Paste (started ?c)"
  have v: "variant ?c = DevTools" by simp
  have a: "subscribed (started ?c)" by (simp add: started_simps)
  from suppressed_actions [OF v a]
  have 1: "prevented (trace ?st) = Suc (prevented (trace (started ?c)))"
    "violations ?st = violations (started ?c)"
    by blast+
  have b: "subscribed ?st"
    by (simp add: started_simps dispatch_def changeDocument_def listener_def clipboard_def
        preventClipboardAction_def preventDefault_def emit_def)
  from suppressed_actions [OF v b]
  have 2: "prevented (trace (dispatch ?c Paste ?st)) = Suc (prevented (trace ?st))"
    "violations (dispatch ?c Paste ?st) = violations ?st"
    by blast+
  from 1 2 show ?thesis by (simp add: started_simps)
qed

text \<open>
  The claim as the specification words it asks for a notice after every suppressed action
  and for prevention without condition. A context menu is prevented without a notice, and
  before the exam has started a copy is not prevented.
\<close>

theorem suppressed_actions_counterexample:
  "prevented (trace (dispatch (exampleConfig DevTools) ContextMenu
      (started (exampleConfig DevTools)))) = 1 \<and>
   alerts (trace (dispatch (exampleConfig DevTools) ContextMenu
      (started (exampleConfig DevTools)))) = [] \<and>
   prevented (trace (dispatch (exampleConfig DevTools) Copy
      (mount (exampleConfig DevTools) True False))) = 0"
  by (simp add: started_simps dispatch_def changeDocument_def listener_def preventDefault_def emit_def
      mount_simps)

subsection \<open>The subscription set\<close>

text \<open>
  C5. In the two versions with security switches, at every moment of every session the
  listeners are attached exactly when \<open>violations\<close> is at least 0, \<open>isSecurityEnabled\<close>
  is true and \<open>isFinalSubmission\<close> is false (the values of the last render). So while
  security is disabled or the final submission has begun, any sequence of signals leaves
  the trace as it is: no call of \<open>onWarning\<close> or \<open>onFinishExam\<close>, nor any other effect.
\<close>

theorem subscription_iff_eligible:
  assumes "variant cfg \<noteq> Prevention" and "st = run cfg evs (mount cfg sec fin)"
  shows "(subscribed st \<longleftrightarrow>
            0 \<le> violations st \<and> isSecurityEnabled st \<and> \<not> isFinalSubmission st) \<and>
         (\<not> isSecurityEnabled st \<or> isFinalSubmission st \<longrightarrow>
            (\<forall>ss. trace (run cfg (map Signal ss) st) = trace st))"
proof -
  have c: "consistent cfg st"
    unfolding assms(2) by (rule consistent_run) (rule consistent_mount)
  with assms(1) have s: "subscribed st \<longleftrightarrow>
      0 \<le> violations st \<and> isSecurityEnabled st \<and> \<not> isFinalSubmission st"
    by (cases "variant cfg") (auto simp add: consistent_def eligible_def)
  then have "\<not> isSecurityEnabled st \<or> isFinalSubmission st \<Longrightarrow>
      trace (run cfg (map Signal ss) st) = trace st" for ss
    by (intro signals_unsubscribed) auto
  with s show ?thesis by blast
qed

theorem subscription_iff_eligible_witness:
  "\<not> subscribed (run (exampleConfig DevTools) [StartExam True, Render False False]
       (mount (exampleConfig DevTools) False False)) \<and>
   trace (run (exampleConfig DevTools)
       (map Signal [VisibilityChange True, FullscreenChange False, DevToolsCheck 500 0 500 0])
       (run (exampleConfig DevTools) [StartExam True, Render False False]
          (mount (exampleConfig DevTools) False False))) =
   trace (run (exampleConfig DevTools) [StartExam True, Render False False]
       (mount (exampleConfig DevTools) False False))"
proof -
  let ?c = "exampleConfig DevTools"
  let ?st = "run ?c [StartExam True, Render False False] (mount ?c False False)"
  have v: "variant ?c \<noteq> Prevention" by simp
  have sec: "\<not> isSecurityEnabled ?st" by (simp add: render_def Let_def)
  from subscription_iff_eligible [OF v refl, of "[StartExam True, Render False False]" False False]
    sec
  show ?thesis by blast
qed

subsection \<open>Returning to fullscreen\<close>

text \<open>
  C6. \<open>reEnterFullScreen\<close> always fulfils (the rejection of the request is caught). With
  the document in fullscreen it returns the state as it found it. It requests fullscreen
  exactly when the document is not in fullscreen and security is enabled (always, in the
  version without the switch); when that request is rejected and the host passed
  \<open>onFinishExam\<close>, the callback is called once.
\<close>

theorem reEnterFullScreen_outcome:
  "fst (reEnterFullScreen cfg granted st) = Fulfilled Undefined \<and>
   (fullscreen st \<longrightarrow> snd (reEnterFullScreen cfg granted st) = st) \<and>
   (requests (trace (snd (reEnterFullScreen cfg granted st))) =
      requests (trace st) +
      (if \<not> fullscreen st \<and> (variant cfg = Prevention \<or> isSecurityEnabled st)
       then 1 else 0)) \<and>
   (requests (trace (snd (reEnterFullScreen cfg granted st))) \<noteq> requests (trace st) \<and>
    \<not> granted \<and> onFinishExam cfg \<longrightarrow>
      finishes (trace (snd (reEnterFullScreen cfg granted st))) = Suc (finishes (trace st)))"
  by (cases "variant cfg"; cases granted)
    (simp_all add: reEnterFullScreen_def requestFullscreen_def reEnterFailed_def Let_def
      emit_def requests_append finishes_append)

theorem reEnterFullScreen_outcome_witness:
  "finishes (trace (snd (reEnterFullScreen (exampleConfig DevTools) False
      (started (exampleConfig DevTools))))) = 1 \<and>
   snd (reEnterFullScreen (exampleConfig Toggle) False (started (exampleConfig Toggle))) =
     started (exampleConfig Toggle)"
proof -
  let ?c = "exampleConfig DevTools"
  have 1: "requests (trace (snd (reEnterFullScreen ?c False (started ?c)))) \<noteq>
        requests (trace (started ?c)) \<and> \<not> False \<and> onFinishExam ?c"
    using reEnterFullScreen_outcome [of ?c False "started ?c"] by (simp add: started_simps)
  have 2: "fullscreen (started (exampleConfig Toggle))" by (simp add: started_simps)
  from reEnterFullScreen_outcome [of ?c False "started ?c"] 1
    reEnterFullScreen_outcome [of "exampleConfig Toggle" False "started (exampleConfig Toggle)"] 2
  show ?thesis by (simp add: started_simps)
qed

subsection \<open>Starting the exam\<close>

text \<open>
  C7. In the two versions whose \<open>startExam\<close> requests fullscreen, with security enabled:
  when the request is rejected, \<open>startExam\<close> fulfils with \<open>false\<close>, shows the notice that
  fullscreen is required, and queues no state update, so the next render shows the same
  \<open>violations\<close> as without the call (\<open>-1\<close> before the exam has started). A second call
  whose request is granted fulfils with \<open>true\<close> and the next render shows 0.
\<close>

theorem startExam_rejected:
  assumes "variant cfg = Prevention \<or> (variant cfg = Toggle \<and> isSecurityEnabled st)"
  shows "fst (startExam cfg False st) = Fulfilled (Boolean False) \<and>
         alerts (trace (snd (startExam cfg False st))) =
           alerts (trace st) @
           [case variant cfg of
              Prevention \<Rightarrow>
                ''Fullscreen mode is required to start the exam. Please allow it and try again.''
            | _ \<Rightarrow>
                ''Fullscreen mode is required for this exam. Please allow it and try again.''] \<and>
         violations (snd (startExam cfg False st)) = violations st \<and>
         pending (snd (startExam cfg False st)) = pending st \<and>
         violations (render cfg sec fin (snd (startExam cfg False st))) =
           violations (render cfg sec fin st) \<and>
         fst (startExam cfg True (snd (startExam cfg False st))) = Fulfilled (Boolean True) \<and>
         violations (render cfg sec fin
           (snd (startExam cfg True (snd (startExam cfg False st))))) = 0"
  using assms
  by (cases "variant cfg")
    (simp_all add: startExam_def requestFullscreen_def Let_def emit_def setViolations_def
      render_def alerts_append split: option.splits)

theorem startExam_rejected_witness:
  "fst (startExam (exampleConfig Toggle) False (mount (exampleConfig Toggle) True False)) =
     Fulfilled (Boolean False) \<and>
   violations (render (exampleConfig Toggle) True False
     (snd (startExam (exampleConfig Toggle) False (mount (exampleConfig Toggle) True False)))) =
     - 1"
proof -
  let ?c = "exampleConfig Toggle"
  have a: "variant ?c = Prevention \<or>
      (variant ?c = Toggle \<and> isSecurityEnabled (mount ?c True False))"
    by (simp add: mount_simps)
  from startExam_rejected [OF a, of True False]
  have 1: "fst (startExam ?c False (mount ?c True False)) = Fulfilled (Boolean False)"
    and 2: "violations (render ?c True False (snd (startExam ?c False (mount ?c True False)))) =
            violations (render ?c True False (mount ?c True False))"
    by blast+
  have 3: "violations (render ?c True False (mount ?c True False)) = - 1"
    by (simp add: mount_simps render_def Let_def)
  show ?thesis using 1 2 [unfolded 3] by (rule conjI)
qed

text \<open>
  C4, as amended. A call of \<open>startExam\<close> that does not end on a rejected fullscreen
  request queues \<open>setViolations(0)\<close> whatever the count was: the next render shows 0. The
  call leaves the latch, its timer and the host's callbacks alone. So calling it during
  the exam keeps the count only when the count is 0.
\<close>

theorem startExam_resets_count:
  assumes "variant cfg = DevTools \<or> granted \<or>
           (variant cfg = Toggle \<and> \<not> isSecurityEnabled st)"
  shows "violations (render cfg sec fin (snd (startExam cfg granted st))) = 0 \<and>
         isHandlingViolation (snd (startExam cfg granted st)) = isHandlingViolation st \<and>
         timers (snd (startExam cfg granted st)) = timers st \<and>
         warnings (trace (snd (startExam cfg granted st))) = warnings (trace st) \<and>
         finishes (trace (snd (startExam cfg granted st))) = finishes (trace st)"
  using assms
  by (cases "variant cfg")
    (auto simp add: startExam_def requestFullscreen_def Let_def emit_def setViolations_def
      render_def warnings_append finishes_append)

theorem startExam_resets_count_witness:
  "violations (render (exampleConfig DevTools) True False
     (snd (startExam (exampleConfig DevTools) True
        (run (exampleConfig DevTools) (hiddenTimes 2) (started (exampleConfig DevTools)))))) = 0"
proof -
  let ?c = "exampleConfig DevTools"
  have a: "variant ?c = DevTools \<or> True \<or>
      (variant ?c = Toggle \<and>
       \<not> isSecurityEnabled (run ?c (hiddenTimes 2) (started ?c)))"
    by simp
  from startExam_resets_count [OF a, of True False] show ?thesis by simp
qed

text \<open>
  After two violations the count is 2; \<open>startExam\<close> called then brings it back to 0.
\<close>

theorem startExam_again_counterexample:
  "violations (run (exampleConfig DevTools) (hiddenTimes 2) (started (exampleConfig DevTools))) = 2 \<and>
   violations (run (exampleConfig DevTools) [StartExam True, Render True False]
     (run (exampleConfig DevTools) (hiddenTimes 2) (started (exampleConfig DevTools)))) = 0"
  by (simp add: started_simps numeral_2_eq_2 dispatch_def changeDocument_def listener_def handleVisibilityChange_def
      handleViolation_def elapse_def render_def startExam_def setViolations_def emit_def
      eligible_def Let_def)

subsection \<open>The outcome of a violation\<close>

text \<open>
  C1, as amended. A call of \<open>handleViolation\<close> that passes the guard computes the new count
  \<open>n\<close>. With \<open>n\<close> below \<open>maxViolations\<close> it calls \<open>onWarning\<close> with the warning message,
  with \<open>n\<close> equal to \<open>maxViolations\<close> with the final-warning message, which differs from
  every warning message in its first words; with \<open>n\<close> above \<open>maxViolations\<close> it calls
  \<open>onFinishExam\<close> once and \<open>onWarning\<close> not at all. From then on, as long as the host does
  not call \<open>startExam\<close> again, no warning is emitted whatever happens, and every further
  violation that passes the guard calls \<open>onFinishExam\<close> once more: once for each such
  violation, not once for the session. (A callback the host did not pass is skipped.)
\<close>

theorem violation_outcome:
  assumes "\<not> isHandlingViolation st" and "n = violations st + 1"
    and "st' = handleViolation cfg reason st"
  shows "(n < maxViolations cfg \<longrightarrow>
            trace st' = trace st @
              (if onWarning cfg
               then [Warning (warning (variant cfg) reason n (maxViolations cfg))] else [])) \<and>
         (n = maxViolations cfg \<longrightarrow>
            trace st' = trace st @
              (if onWarning cfg then [Warning (finalWarning (variant cfg) reason n)] else [])) \<and>
         isWarning (warning (variant cfg) reason n (maxViolations cfg)) \<and>
         \<not> isFinalWarning (warning (variant cfg) reason n (maxViolations cfg)) \<and>
         isFinalWarning (finalWarning (variant cfg) reason n) \<and>
         \<not> isWarning (finalWarning (variant cfg) reason n) \<and>
         (maxViolations cfg < n \<longrightarrow>
            trace st' = trace st @ (if onFinishExam cfg then [FinishExam] else []) \<and>
            (\<forall>evs. (\<forall>ev \<in> set evs. \<not> restarts ev) \<longrightarrow>
               length (warnings (trace (run cfg evs st'))) = length (warnings (trace st')) \<and>
               (\<forall>r. \<not> isHandlingViolation (run cfg evs st') \<longrightarrow>
                  trace (handleViolation cfg r (run cfg evs st')) =
                    trace (run cfg evs st') @ (if onFinishExam cfg then [FinishExam] else []))))"
proof -
  note t = handleViolation_trace [OF assms(1), of cfg reason, folded assms(2,3)]
  have a: "n < maxViolations cfg \<longrightarrow>
            trace st' = trace st @
              (if onWarning cfg
               then [Warning (warning (variant cfg) reason n (maxViolations cfg))] else [])"
    using t(1) by (simp add: message_def)
  have b: "n = maxViolations cfg \<longrightarrow>
            trace st' = trace st @
              (if onWarning cfg then [Warning (finalWarning (variant cfg) reason n)] else [])"
    using t(1) by (simp add: message_def)
  have c: "trace st' = trace st @ (if onFinishExam cfg then [FinishExam] else [])"
    if "maxViolations cfg < n"
    using t(1) that by simp
  have d: "length (warnings (trace (run cfg evs st'))) = length (warnings (trace st')) \<and>
           (\<forall>r. \<not> isHandlingViolation (run cfg evs st') \<longrightarrow>
              trace (handleViolation cfg r (run cfg evs st')) =
                trace (run cfg evs st') @ (if onFinishExam cfg then [FinishExam] else []))"
    if m: "maxViolations cfg < n" and e: "\<forall>ev \<in> set evs. \<not> restarts ev" for evs
  proof -
    from m t(2,3) assms(2) have "terminated cfg st'" by (simp add: terminated_def)
    note r = terminated_run [OF this e]
    then have "\<not> violations (run cfg evs st') + 1 \<le> maxViolations cfg"
      by (simp add: terminated_def)
    with r show ?thesis by (simp add: handleViolation_trace)
  qed
  from a b c d show ?thesis
    by (simp add: warning_is_warning warning_not_final final_is_final final_not_warning)
qed

theorem violation_outcome_witness:
  "trace (handleViolation (exampleConfig DevTools) ''switched tabs''
     (run (exampleConfig DevTools) (hiddenTimes 3 @ [Elapse 600]) (started (exampleConfig DevTools)))) =
   trace (run (exampleConfig DevTools) (hiddenTimes 3 @ [Elapse 600]) (started (exampleConfig DevTools)))
     @ [FinishExam]"
proof -
  let ?c = "exampleConfig DevTools"
  let ?st = "run ?c (hiddenTimes 3 @ [Elapse 600]) (started ?c)"
  have a: "\<not> isHandlingViolation ?st" by code_simp
  have b: "maxViolations ?c < violations ?st + 1" by code_simp
  from violation_outcome [OF a refl refl, of ?c "''switched tabs''"] b
  show ?thesis by simp
qed

text \<open>
  With \<open>maxViolations\<close> 3, five violations 600 ms apart call \<open>onFinishExam\<close> twice; and
  after the fourth violation a new \<open>startExam\<close> brings the warnings back.
\<close>

theorem violation_outcome_counterexample:
  "finishes (trace (run (exampleConfig DevTools) (hiddenTimes 5)
      (started (exampleConfig DevTools)))) = 2 \<and>
   length (warnings (trace (run (exampleConfig DevTools)
      (hiddenTimes 4 @ [StartExam True, Render True False] @ hiddenTimes 1)
      (started (exampleConfig DevTools))))) =
   Suc (length (warnings (trace (run (exampleConfig DevTools) (hiddenTimes 4)
      (started (exampleConfig DevTools))))))"
  by code_simp

subsection \<open>The cool-down\<close>

text \<open>
  C2. Take a state in which the latch is released and the listeners are attached, a
  signal that is forwarded, and after it any events (signals of any kind and number,
  renders, calls of \<open>reEnterFullScreen\<close>) over less than 500 ms in all. Then the render that
  follows shows a count higher by exactly 1. The first signal sets the latch, the latch
  is still set at the end, and no event other than the passing of time releases it.
\<close>

theorem burst_counts_once:
  assumes "latchTimed st" and "\<not> isHandlingViolation st" and "subscribed st"
    and "forwards cfg s st"
    and "\<forall>ev \<in> set evs. \<not> restarts ev" and "duration evs < 500"
  shows "violations (render cfg sec fin (run cfg (Signal s # evs) st)) = violations st + 1 \<and>
         isHandlingViolation (dispatch cfg s st) \<and>
         isHandlingViolation (run cfg (Signal s # evs) st) \<and>
         (\<forall>ev st'. isHandlingViolation st' \<and> (\<forall>d. ev \<noteq> Elapse d) \<longrightarrow>
            isHandlingViolation (step cfg ev st'))"
proof -
  let ?st1 = "dispatch cfg s st"
  from assms(2,3,4) have c: "counted cfg s st" by (simp add: forwards_counted)
  then have d: "digestOf ?st1 = record_violation cfg (digestOf st)" by (rule dispatch_counted)
  note f = recorded_fields [OF assms(2) d]
  from assms(1,2) have "timers st = []" by (simp add: latchTimed_def)
  with f have t: "timers ?st1 = [now st + 500]" by simp
  from f assms(6) have n: "now ?st1 + duration evs < now st + 500" by simp
  from held_run [OF f(3) t assms(5) n, of cfg]
  have l: "isHandlingViolation (run cfg evs ?st1)"
    and "committed (run cfg evs ?st1) = committed ?st1" by simp_all
  with f have "committed (run cfg evs ?st1) = violations st + 1"
    by (simp add: committed_def split: option.splits)
  then have v: "violations (render cfg sec fin (run cfg (Signal s # evs) st)) = violations st + 1"
    by (simp add: render_def Let_def committed_def split: option.splits)
  from v f(3) l latch_kept show ?thesis by auto
qed

theorem burst_counts_once_witness:
  "violations (render (exampleConfig DevTools) True False
      (run (exampleConfig DevTools) (Signal (VisibilityChange True) # restOfBurst)
         (started (exampleConfig DevTools)))) = 1"
proof -
  let ?c = "exampleConfig DevTools"
  have a: "latchTimed (started ?c)" by (simp add: started_simps latchTimed_def)
  have b: "\<not> isHandlingViolation (started ?c)" by (simp add: started_simps)
  have c: "subscribed (started ?c)" by (simp add: started_simps)
  have d: "forwards ?c (VisibilityChange True) (started ?c)" by code_simp
  have e: "\<forall>ev \<in> set restOfBurst. \<not> restarts ev" by (simp add: restOfBurst_def)
  have f: "duration restOfBurst < 500" by (simp add: restOfBurst_def)
  from burst_counts_once [OF a b c d e f, of True False]
  show ?thesis by (simp add: started_simps)
qed

subsection \<open>Violations more than 500 ms apart\<close>

text \<open>
  C3, as amended. After a granted \<open>startExam\<close> and its render, with monitoring eligible
  and \<open>maxViolations\<close> positive, \<open>violations\<close> is 0. After \<open>k\<close> forwarded signals, each more
  than 500 ms after the one before and each followed by a render, \<open>violations\<close> is \<open>k\<close>
  (1 after one violation). Up to \<open>maxViolations\<close> signals \<open>onFinishExam\<close> has not been
  called, and after exactly \<open>maxViolations\<close> the last message is the final warning; after
  \<open>maxViolations + 1\<close> signals \<open>onFinishExam\<close> has been called exactly once.
\<close>

theorem spaced_violations:
  assumes "variant cfg = Prevention \<or> (sec \<and> \<not> fin)" and "0 < maxViolations cfg"
    and "st0 = run cfg [StartExam True, Render sec fin] (mount cfg sec fin)"
    and "apart sched" and "triggering cfg sec fin sched st0"
    and "st = run cfg (rounds sec fin sched) st0"
  shows "violations st0 = 0 \<and>
         violations st = int (length sched) \<and>
         (int (length sched) \<le> maxViolations cfg \<longrightarrow> finishes (trace st) = 0) \<and>
         (onWarning cfg \<and> int (length sched) = maxViolations cfg \<longrightarrow>
            warnings (trace st) \<noteq> [] \<and> isFinalWarning (last (warnings (trace st)))) \<and>
         (onFinishExam cfg \<and> int (length sched) = maxViolations cfg + 1 \<longrightarrow>
            finishes (trace st) = 1)"
proof -
  note a = armed_state [OF assms(1), folded assms(3)]
  have 1: "latchTimed st0" by (simp add: a latchTimed_def)
  have 2: "subscribed st0" and 3: "pending st0 = None" and 4: "0 \<le> violations st0"
    by (simp_all add: a)
  from assms(1) have 5: "eligible (variant cfg) sec 0 fin"
    by (cases "variant cfg") (auto simp add: eligible_def)
  have 6: "isHandlingViolation st0 \<longrightarrow> (\<forall>x \<in> set (take 1 sched). 500 < fst x)"
    by (simp add: a)
  note r = rounds_effect [OF 1 2 3 4 5 assms(4) 6 assms(5), folded assms(6)]
  have v0: "violations st0 = 0" and f0: "finishes (trace st0) = 0" by (simp_all add: a)
  from r v0 have v: "violations st = int (length sched)" by simp
  from r v0 f0 have f: "finishes (trace st) =
      (if onFinishExam cfg
       then nat (min (int (length sched)) (int (length sched) - maxViolations cfg)) else 0)"
    by simp
  have k: "onWarning cfg \<and> int (length sched) = maxViolations cfg \<longrightarrow>
      warnings (trace st) \<noteq> [] \<and> isFinalWarning (last (warnings (trace st)))"
  proof
    assume h: "onWarning cfg \<and> int (length sched) = maxViolations cfg"
    with assms(2) have "sched \<noteq> []" by auto
    with r v0 h have "kinds (trace st) \<noteq> [] \<and> last (kinds (trace st))" by simp
    with last_kinds [of "trace st"]
    show "warnings (trace st) \<noteq> [] \<and> isFinalWarning (last (warnings (trace st)))" by simp
  qed
  from v0 v f k assms(2) show ?thesis by (auto simp add: min_def)
qed

theorem spaced_violations_witness:
  "violations (run (exampleConfig DevTools) (rounds True False scenario)
      (started (exampleConfig DevTools))) = 4 \<and>
   finishes (trace (run (exampleConfig DevTools) (rounds True False scenario)
      (started (exampleConfig DevTools)))) = 1"
proof -
  let ?c = "exampleConfig DevTools"
  have a: "variant ?c = Prevention \<or> (True \<and> \<not> False)" by simp
  have b: "0 < maxViolations ?c" by simp
  have c: "started ?c = run ?c [StartExam True, Render True False] (mount ?c True False)"
    by (simp add: started_def)
  have d: "apart scenario" by (simp add: scenario_def)
  have e: "triggering ?c True False scenario (started ?c)" by code_simp
  have l: "int (length scenario) = maxViolations ?c + 1" by (simp add: scenario_def)
  from spaced_violations [OF a b c d e refl] l show ?thesis by simp
qed

text \<open>After one signal the count is 1, not \<open>k - 1 = 0\<close>.\<close>

theorem spaced_violations_counterexample:
  "violations (run (exampleConfig DevTools) (rounds True False [(600, VisibilityChange True)])
      (started (exampleConfig DevTools))) \<noteq>
   int (length [(600 :: nat, VisibilityChange True)]) - 1"
  by (simp add: started_simps dispatch_def changeDocument_def listener_def
      handleVisibilityChange_def handleViolation_def elapse_def render_def emit_def
      eligible_def Let_def)

end
